theory Spec2Isabelle
  imports Complex_Main "HOL-Library.AList" "HOL-Library.Multiset"
begin

section \<open>Request data\<close>

text \<open>
  A parsed JSON value as the handlers receive it in \<open>req.body\<close>. Numbers are
  JavaScript doubles; the finite ones are rationals, and \<open>JInf\<close> stands for the two
  infinities (which \<open>JSON.parse\<close> yields for a literal such as \<open>1e999\<close>); its flag
  tells the positive one.
\<close>

datatype json =
    JNull
  | JBool bool
  | JNum rat
  | JInf bool
  | JStr string
  | JArr "json list"
  | JObj "(string \<times> json) list"

text \<open>An object is its list of own keys with their values, in insertion order.\<close>

type_synonym object = "(string \<times> json) list"

section \<open>The validator (Joi)\<close>

datatype presence_mode = Optional | Required | Forbidden

text \<open>
  The preferences of one \<open>validate\<close> call. Joi's own defaults are
  \<open>abortEarly: true\<close>, \<open>allowUnknown: false\<close>, \<open>presence: 'optional'\<close>,
  \<open>stripUnknown: false\<close> (and \<open>convert: true\<close>, \<open>noDefaults: false\<close>, which no call
  of the controller changes).
\<close>

record prefs =
  abortEarly :: bool
  allowUnknown :: bool
  presence :: presence_mode
  stripUnknown :: bool

datatype base_type = StringT | NumberT

datatype rule = StringMin nat | NumberMin nat | NumberMax nat

text \<open>
  The schema of one key: its base type, its rules in the order they were added, the
  values of \<open>allow(...)\<close> and \<open>valid(...)\<close> (strings, in this controller), whether
  \<open>valid\<close> made them the only values, the presence flag set by \<open>required()\<close>, and the
  value of \<open>default(...)\<close>.
\<close>

record key_schema =
  base :: base_type
  rules :: "rule list"
  allowed :: "string list"
  only :: bool
  presence_flag :: "presence_mode option"
  default_value :: "json option"

definition Joi_string :: key_schema where
  "Joi_string = \<lparr>base = StringT, rules = [], allowed = [], only = False,
     presence_flag = None, default_value = None\<rparr>"

definition Joi_number :: key_schema where
  "Joi_number = \<lparr>base = NumberT, rules = [], allowed = [], only = False,
     presence_flag = None, default_value = None\<rparr>"

definition joi_min :: "nat \<Rightarrow> key_schema \<Rightarrow> key_schema" where
  "joi_min n s = s\<lparr>rules := rules s @
     [case base s of StringT \<Rightarrow> StringMin n | NumberT \<Rightarrow> NumberMin n]\<rparr>"

definition joi_max :: "nat \<Rightarrow> key_schema \<Rightarrow> key_schema" where
  "joi_max n s = s\<lparr>rules := rules s @ [NumberMax n]\<rparr>"

definition joi_required :: "key_schema \<Rightarrow> key_schema" where
  "joi_required s = s\<lparr>presence_flag := Some Required\<rparr>"

definition joi_allow :: "string list \<Rightarrow> key_schema \<Rightarrow> key_schema" where
  "joi_allow vs s = s\<lparr>allowed := allowed s @ vs\<rparr>"

definition joi_valid :: "string list \<Rightarrow> key_schema \<Rightarrow> key_schema" where
  "joi_valid vs s = s\<lparr>allowed := allowed s @ vs, only := True\<rparr>"

definition joi_default :: "json \<Rightarrow> key_schema \<Rightarrow> key_schema" where
  "joi_default v s = s\<lparr>default_value := Some v\<rparr>"

definition categories :: "string list" where
  "categories = [''food'', ''tech'', ''travel'', ''fitness'', ''other'']"

text \<open>\<open>perkSchema\<close>, key by key in the order of the source.\<close>

definition perkSchema :: "(string \<times> key_schema) list" where
  "perkSchema =
    [(''title'', joi_required (joi_min 2 Joi_string)),
     (''description'', joi_allow [''''] Joi_string),
     (''category'', joi_default (JStr ''other'') (joi_valid categories Joi_string)),
     (''discountPercent'', joi_default (JNum 0) (joi_max 100 (joi_min 0 Joi_number))),
     (''merchant'', joi_allow [''''] Joi_string)]"

subsection \<open>Validation errors and their messages\<close>

datatype joi_error =
    AnyRequired string
  | AnyUnknown string
  | AnyOnly string "string list"
  | StringBase string
  | StringEmpty string
  | StringMinE string nat
  | NumberBase string
  | NumberInfinity string
  | NumberUnsafe string
  | NumberMinE string nat
  | NumberMaxE string nat
  | ObjectUnknown string

fun error_key :: "joi_error \<Rightarrow> string" where
  "error_key (AnyRequired k) = k"
| "error_key (AnyUnknown k) = k"
| "error_key (AnyOnly k vs) = k"
| "error_key (StringBase k) = k"
| "error_key (StringEmpty k) = k"
| "error_key (StringMinE k n) = k"
| "error_key (NumberBase k) = k"
| "error_key (NumberInfinity k) = k"
| "error_key (NumberUnsafe k) = k"
| "error_key (NumberMinE k n) = k"
| "error_key (NumberMaxE k n) = k"
| "error_key (ObjectUnknown k) = k"

fun show_nat :: "nat \<Rightarrow> string" where
  "show_nat n =
     (if n < 10 then [''0123456789'' ! n]
      else show_nat (n div 10) @ [''0123456789'' ! (n mod 10)])"

declare show_nat.simps [simp del]

fun join :: "string \<Rightarrow> string list \<Rightarrow> string" where
  "join sep [] = []"
| "join sep [x] = x"
| "join sep (x # y # ys) = x @ sep @ join sep (y # ys)"

text \<open>The label of a key in a message: the key between double quotes.\<close>

definition label :: "string \<Rightarrow> string" where
  "label k = [CHR 0x22] @ k @ [CHR 0x22]"

fun message :: "joi_error \<Rightarrow> string" where
  "message (AnyRequired k) = label k @ '' is required''"
| "message (AnyUnknown k) = label k @ '' is not allowed''"
| "message (AnyOnly k vs) = label k @ '' must be ''
     @ (if length vs = 1 then [] else ''one of '') @ ''['' @ join '', '' vs @ '']''"
| "message (StringBase k) = label k @ '' must be a string''"
| "message (StringEmpty k) = label k @ '' is not allowed to be empty''"
| "message (StringMinE k n) =
     label k @ '' length must be at least '' @ show_nat n @ '' characters long''"
| "message (NumberBase k) = label k @ '' must be a number''"
| "message (NumberInfinity k) = label k @ '' cannot be infinity''"
| "message (NumberUnsafe k) = label k @ '' must be a safe number''"
| "message (NumberMinE k n) = label k @ '' must be greater than or equal to '' @ show_nat n"
| "message (NumberMaxE k n) = label k @ '' must be less than or equal to '' @ show_nat n"
| "message (ObjectUnknown k) = label k @ '' is not allowed''"

text \<open>
  \<open>error.message\<close> of a validation error: the messages of its details, each once (the
  first occurrence kept), joined by a full stop and a space.
\<close>

definition error_message :: "joi_error list \<Rightarrow> string" where
  "error_message es = join ''. '' (rev (remdups (rev (map message es))))"

subsection \<open>Validating one value\<close>

text \<open>
  How Joi reads a string where a number is expected (\<open>convert\<close> is on): not at all when
  the string is not a numeral, as a number, or as a numeral that no double holds safely.
  The reading itself is JavaScript's \<open>parseFloat\<close>; it stays a parameter of the
  validator.
\<close>

datatype num_reading = NotNumeric | Numeric rat | UnsafeNumeric

type_synonym reader = "string \<Rightarrow> num_reading"

fun coerce :: "reader \<Rightarrow> base_type \<Rightarrow> string \<Rightarrow> json \<Rightarrow> joi_error + json" where
  "coerce rd NumberT k (JStr s) =
     (case rd s of
        NotNumeric \<Rightarrow> Inr (JStr s)
      | Numeric r \<Rightarrow> Inr (JNum r)
      | UnsafeNumeric \<Rightarrow> Inl (NumberUnsafe k))"
| "coerce rd b k v = Inr v"

definition max_safe_integer :: rat where
  "max_safe_integer = 2 ^ 53 - 1"

fun base_validate :: "key_schema \<Rightarrow> string \<Rightarrow> json \<Rightarrow> joi_error option" where
  "base_validate sch k v =
     (case base sch of
        StringT \<Rightarrow>
          (case v of
             JStr s \<Rightarrow>
               if s = [] then
                 (if StringMin 0 \<in> set (rules sch) then None else Some (StringEmpty k))
               else None
           | _ \<Rightarrow> Some (StringBase k))
      | NumberT \<Rightarrow>
          (case v of
             JInf b \<Rightarrow> Some (NumberInfinity k)
           | JNum r \<Rightarrow>
               if r > max_safe_integer \<or> r < - max_safe_integer
               then Some (NumberUnsafe k) else None
           | _ \<Rightarrow> Some (NumberBase k)))"

fun check_rule :: "string \<Rightarrow> rule \<Rightarrow> json \<Rightarrow> joi_error option" where
  "check_rule k (StringMin n) (JStr s) = (if length s < n then Some (StringMinE k n) else None)"
| "check_rule k (NumberMin n) (JNum r) = (if r < of_nat n then Some (NumberMinE k n) else None)"
| "check_rule k (NumberMax n) (JNum r) = (if of_nat n < r then Some (NumberMaxE k n) else None)"
| "check_rule k r v = None"

text \<open>The rules in order; with \<open>abortEarly\<close> the first failure ends the run.\<close>

fun run_rules :: "bool \<Rightarrow> string \<Rightarrow> rule list \<Rightarrow> json \<Rightarrow> joi_error list" where
  "run_rules ae k [] v = []"
| "run_rules ae k (r # rs) v =
     (case check_rule k r v of
        None \<Rightarrow> run_rules ae k rs v
      | Some e \<Rightarrow> if ae then [e] else e # run_rules ae k rs v)"

text \<open>
  The end of every validation of a value: an undefined value takes the schema's default,
  whatever the presence mode (only the preference \<open>noDefaults\<close>, which the controller
  never sets, would keep the defaults out).
\<close>

definition finalize :: "key_schema \<Rightarrow> json option \<Rightarrow> joi_error list \<Rightarrow> joi_error list \<times> json option" where
  "finalize sch v es = (es, case v of None \<Rightarrow> default_value sch | Some x \<Rightarrow> Some x)"

text \<open>
  The presence that applies to a key: its own flag when it has one (\<open>required()\<close>), the
  preference of the call otherwise. Joi documents the preference \<open>presence\<close> as the
  default presence requirement, that is, the one of the keys that carry no flag; a key
  declared \<open>required()\<close> stays required under \<open>presence: 'optional'\<close>.
\<close>

definition presence_of :: "prefs \<Rightarrow> key_schema \<Rightarrow> presence_mode" where
  "presence_of p sch = (case presence_flag sch of Some m \<Rightarrow> m | None \<Rightarrow> presence p)"

definition validate_value ::
  "reader \<Rightarrow> prefs \<Rightarrow> string \<Rightarrow> key_schema \<Rightarrow> json option \<Rightarrow> joi_error list \<times> json option" where
  "validate_value rd p k sch item =
     (case item of
        None \<Rightarrow>
          (if presence_of p sch = Required then finalize sch None [AnyRequired k]
           else finalize sch None [])
      | Some raw \<Rightarrow>
          (case coerce rd (base sch) k raw of
             Inl e \<Rightarrow> finalize sch (Some raw) [e]
           | Inr v \<Rightarrow>
               if presence_of p sch = Forbidden then finalize sch (Some v) [AnyUnknown k]
               else if v \<in> JStr ` set (allowed sch) then finalize sch (Some v) []
               else if only sch \<and> abortEarly p
                 then finalize sch (Some v) [AnyOnly k (allowed sch)]
               else
                 (let es = (if only sch then [AnyOnly k (allowed sch)] else []) in
                  case base_validate sch k v of
                    Some e \<Rightarrow> finalize sch (Some v) (es @ [e])
                  | None \<Rightarrow>
                      finalize sch (Some v) (es @ run_rules (abortEarly p) k (rules sch) v))))"

subsection \<open>Validating an object against its keys\<close>

text \<open>
  The keys of the schema in order, on a copy of the object: a key's result replaces its
  value, errors accumulate, and with \<open>abortEarly\<close> the first key with an error ends the
  validation.
\<close>

fun validate_keys ::
  "reader \<Rightarrow> prefs \<Rightarrow> (string \<times> key_schema) list \<Rightarrow> joi_error list \<Rightarrow> object
     \<Rightarrow> joi_error list \<times> object" where
  "validate_keys rd p [] errs val = (errs, val)"
| "validate_keys rd p ((k, sch) # ks) errs val =
     (case validate_value rd p k sch (map_of val k) of
        (es, res) \<Rightarrow>
          if es \<noteq> [] then
            (if abortEarly p then (es, val)
             else validate_keys rd p ks (errs @ es)
                    (case res of None \<Rightarrow> val | Some v \<Rightarrow> AList.update k v val))
          else
            (case res of
               None \<Rightarrow> validate_keys rd p ks errs (AList.delete k val)
             | Some v \<Rightarrow> validate_keys rd p ks errs (AList.update k v val)))"

text \<open>The keys of the object that the schema does not know, in the object's order.\<close>

definition unknown_keys :: "(string \<times> key_schema) list \<Rightarrow> object \<Rightarrow> string list" where
  "unknown_keys schema obj = filter (\<lambda>k. k \<notin> fst ` set schema) (remdups (map fst obj))"

fun forbid_unknown :: "bool \<Rightarrow> string list \<Rightarrow> joi_error list" where
  "forbid_unknown ae [] = []"
| "forbid_unknown ae (k # ks) = (if ae then [ObjectUnknown k] else ObjectUnknown k # forbid_unknown ae ks)"

text \<open>
  \<open>schema.validate(value, prefs)\<close> for an object schema: the known keys first, then the
  unknown ones, which \<open>stripUnknown\<close> removes and which are errors otherwise unless
  \<open>allowUnknown\<close> is set. The result is the list of errors (\<open>error.details\<close>) or, when
  there is none, the validated value.
\<close>

definition validate ::
  "reader \<Rightarrow> prefs \<Rightarrow> (string \<times> key_schema) list \<Rightarrow> object \<Rightarrow> joi_error list + object" where
  "validate rd p schema obj =
     (case validate_keys rd p schema [] obj of
        (errs, val) \<Rightarrow>
          if errs \<noteq> [] \<and> abortEarly p then Inl errs
          else
            (let unk = unknown_keys schema obj;
                 val' = (if stripUnknown p then foldr AList.delete unk val else val);
                 unk' = (if stripUnknown p then [] else unk);
                 errs' = errs @ (if allowUnknown p then [] else forbid_unknown (abortEarly p) unk')
             in if errs' = [] then Inr val' else Inl errs'))"

definition create_prefs :: prefs where
  "create_prefs = \<lparr>abortEarly = True, allowUnknown = False, presence = Optional,
     stripUnknown = False\<rparr>"

definition update_prefs :: prefs where
  "update_prefs = \<lparr>abortEarly = False, allowUnknown = False, presence = Optional,
     stripUnknown = True\<rparr>"

section \<open>The store (Mongoose, and the Perk model)\<close>

text \<open>
  An error as the handlers see it: they look at \<open>err.name\<close> and \<open>err.code\<close> only.
\<close>

record js_error =
  err_name :: string
  err_code :: "nat option"

definition CastError :: js_error where
  "CastError = \<lparr>err_name = ''CastError'', err_code = None\<rparr>"

definition DuplicateKey :: js_error where
  "DuplicateKey = \<lparr>err_name = ''MongoServerError'', err_code = Some 11000\<rparr>"

definition ValidationError :: js_error where
  "ValidationError = \<lparr>err_name = ''ValidationError'', err_code = None\<rparr>"

text \<open>
  Modelled from the spec: the Perk document of \<open>models/Perk.js\<close>, which is not among the
  sources. The spec's data model gives it an identifier assigned on creation, the five
  fields of the schema, and the creation time that orders listings.
\<close>

record perk =
  pid :: nat
  title :: string
  description :: string
  category :: string
  discountPercent :: rat
  merchant :: string
  createdAt :: nat

text \<open>The collection, in insertion order.\<close>

type_synonym store = "perk list"

text \<open>
  Modelled from the spec: the shape of an identifier. The spec says only that a malformed
  one is "not a valid identifier shape"; the model takes MongoDB's ObjectId, twelve bytes
  written as 24 hexadecimal digits of either case, and reads a well-formed string as the
  number it denotes. A string of any other shape is what the store refuses with a
  CastError.
\<close>

definition hex_digit :: "char \<Rightarrow> nat option" where
  "hex_digit c =
     map_of (zip ''0123456789abcdef'' [0, 1, 2, 3, 4, 5, 6, 7, 8, 9, 10, 11, 12, 13, 14, 15]
       @ zip ''ABCDEF'' [10, 11, 12, 13, 14, 15]) c"

fun hex_value :: "nat \<Rightarrow> string \<Rightarrow> nat option" where
  "hex_value acc [] = Some acc"
| "hex_value acc (c # cs) =
     (case hex_digit c of None \<Rightarrow> None | Some d \<Rightarrow> hex_value (16 * acc + d) cs)"

definition cast_id :: "string \<Rightarrow> nat option" where
  "cast_id s = (if length s = 24 then hex_value 0 s else None)"

text \<open>
  \<open>Object.assign(doc, value)\<close>, path by path: a path of the document that \<open>value\<close> has
  as own key takes the value of that key. After a successful validation every such
  value has the type of its path; a value of another type leaves the path as it was.
\<close>

definition assign :: "perk \<Rightarrow> object \<Rightarrow> perk" where
  "assign d val = d
     \<lparr>title := (case map_of val ''title'' of Some (JStr s) \<Rightarrow> s | _ \<Rightarrow> title d),
      description := (case map_of val ''description'' of Some (JStr s) \<Rightarrow> s | _ \<Rightarrow> description d),
      category := (case map_of val ''category'' of Some (JStr s) \<Rightarrow> s | _ \<Rightarrow> category d),
      discountPercent :=
        (case map_of val ''discountPercent'' of Some (JNum r) \<Rightarrow> r | _ \<Rightarrow> discountPercent d),
      merchant := (case map_of val ''merchant'' of Some (JStr s) \<Rightarrow> s | _ \<Rightarrow> merchant d)\<rparr>"

text \<open>
  Modelled from the spec: a new document before the caller's fields are set. The spec's
  data model gives the defaults: \<open>description\<close> and \<open>merchant\<close> the empty string,
  \<open>category\<close> "other", \<open>discountPercent\<close> 0. The identifier and the creation time come
  from outside (the driver and the clock), so they are arguments.
\<close>

definition new_perk :: "nat \<Rightarrow> nat \<Rightarrow> perk" where
  "new_perk oid now = \<lparr>pid = oid, title = [], description = [], category = ''other'',
     discountPercent = 0, merchant = [], createdAt = now\<rparr>"

text \<open>
  Modelled from the spec: the uniqueness constraint of the collection, "on (title,
  merchant) or equivalent", beside the one every collection has on the identifier.
\<close>

definition clashes :: "perk \<Rightarrow> perk \<Rightarrow> bool" where
  "clashes d q = (title q = title d \<and> merchant q = merchant d)"

text \<open>
  \<open>Perk.create(value)\<close>. Modelled from the spec: \<open>title\<close> is required, and a document that
  breaks a uniqueness constraint is refused with the driver's error code 11000.
\<close>

definition Perk_create :: "nat \<Rightarrow> nat \<Rightarrow> object \<Rightarrow> store \<Rightarrow> js_error + perk \<times> store" where
  "Perk_create now oid val s =
     (case map_of val ''title'' of
        Some (JStr t) \<Rightarrow>
          (let doc = assign (new_perk oid now) val in
           if \<exists>q \<in> set s. pid q = oid \<or> clashes doc q then Inl DuplicateKey
           else Inr (doc, s @ [doc]))
      | _ \<Rightarrow> Inl ValidationError)"

text \<open>\<open>Perk.find(filter).sort({createdAt: -1})\<close>, the filter being on the title or absent.\<close>

definition Perk_find :: "string option \<Rightarrow> store \<Rightarrow> perk list" where
  "Perk_find flt s =
     rev (sort_key createdAt
       (filter (\<lambda>q. case flt of None \<Rightarrow> True | Some t \<Rightarrow> title q = t) s))"

text \<open>\<open>Perk.findById(id)\<close>: a string that is no identifier raises a CastError.\<close>

definition Perk_findById :: "string \<Rightarrow> store \<Rightarrow> js_error + perk option" where
  "Perk_findById ident s =
     (case cast_id ident of
        None \<Rightarrow> Inl CastError
      | Some n \<Rightarrow> Inr (find (\<lambda>q. pid q = n) s))"

text \<open>\<open>Perk.findByIdAndDelete(id)\<close>: the document found, and the collection without it.\<close>

definition Perk_findByIdAndDelete :: "string \<Rightarrow> store \<Rightarrow> js_error + perk option \<times> store" where
  "Perk_findByIdAndDelete ident s =
     (case cast_id ident of
        None \<Rightarrow> Inl CastError
      | Some n \<Rightarrow>
          (case find (\<lambda>q. pid q = n) s of
             None \<Rightarrow> Inr (None, s)
           | Some d \<Rightarrow> Inr (Some d, filter (\<lambda>q. pid q \<noteq> n) s)))"

text \<open>
  \<open>doc.save()\<close> of a document read from the collection: it replaces the stored document of
  the same identifier, unless another document already has its title and merchant.
\<close>

definition Perk_save :: "perk \<Rightarrow> store \<Rightarrow> js_error + perk \<times> store" where
  "Perk_save d s =
     (if \<exists>q \<in> set s. pid q \<noteq> pid d \<and> clashes d q then Inl DuplicateKey
      else Inr (d, map (\<lambda>q. if pid q = pid d then d else q) s))"

section \<open>The handlers\<close>

datatype payload =
    Message string
  | Failure string "string list"
  | PerkDoc perk
  | PerkDocs "perk list"
  | Ok

text \<open>
  What a handler does with the request: it sends a response (status and JSON body), or
  it hands an error to \<open>next\<close>, the error handler of the application.
\<close>

datatype outcome = Respond nat payload | Next js_error

datatype store_call =
    Find "string option"
  | FindById string
  | Create object
  | FindByIdAndDelete string
  | Save perk

text \<open>
  The result of a handler: its outcome, the calls it made on the store, in order, and the
  collection afterwards.
\<close>

record result =
  outcome :: outcome
  calls :: "store_call list"
  store :: store

definition reply :: "outcome \<Rightarrow> store_call list \<Rightarrow> store \<Rightarrow> result" where
  "reply out cs s = \<lparr>outcome = out, calls = cs, store = s\<rparr>"

text \<open>\<open>filterPerks\<close>: \<open>title\<close> is the query parameter, absent or a string.\<close>

definition filterPerks :: "string option \<Rightarrow> store \<Rightarrow> result" where
  "filterPerks title_q s =
     (case title_q of
        Some t \<Rightarrow>
          if t \<noteq> [] then reply (Respond 200 (PerkDocs (Perk_find (Some t) s))) [Find (Some t)] s
          else reply (Respond 400 (Message ''Title query parameter is required'')) [] s
      | None \<Rightarrow> reply (Respond 400 (Message ''Title query parameter is required'')) [] s)"

definition getPerk :: "string \<Rightarrow> store \<Rightarrow> result" where
  "getPerk ident s =
     (case Perk_findById ident s of
        Inl err \<Rightarrow> reply (Next err) [FindById ident] s
      | Inr None \<Rightarrow> reply (Respond 404 (Message ''Perk not found'')) [FindById ident] s
      | Inr (Some d) \<Rightarrow> reply (Respond 200 (PerkDoc d)) [FindById ident] s)"

definition getAllPerks :: "store \<Rightarrow> result" where
  "getAllPerks s = reply (Respond 200 (PerkDocs (Perk_find None s))) [Find None] s"

text \<open>
  \<open>createPerk\<close>: \<open>now\<close> and \<open>oid\<close> are the creation time and the identifier the new
  document gets.
\<close>

definition createPerk :: "reader \<Rightarrow> nat \<Rightarrow> nat \<Rightarrow> object \<Rightarrow> store \<Rightarrow> result" where
  "createPerk rd now oid body s =
     (case validate rd create_prefs perkSchema body of
        Inl errs \<Rightarrow> reply (Respond 400 (Message (error_message errs))) [] s
      | Inr val \<Rightarrow>
          (case Perk_create now oid val s of
             Inr (doc, s') \<Rightarrow> reply (Respond 201 (PerkDoc doc)) [Create val] s'
           | Inl err \<Rightarrow>
               if err_code err = Some 11000
               then reply (Respond 409 (Message ''Duplicate perk for this merchant'')) [Create val] s
               else reply (Next err) [Create val] s))"

text \<open>
  The \<open>catch\<close> of \<open>updatePerk\<close>: a CastError becomes a 400, any other error goes to
  \<open>next\<close>.
\<close>

definition update_catch :: "js_error \<Rightarrow> outcome" where
  "update_catch err =
     (if err_name err = ''CastError'' then Respond 400 (Message ''Invalid id format'')
      else Next err)"

text \<open>
  \<open>updatePerk\<close>: the identifier and the body may be missing from the request
  (\<open>!req.params.id\<close> also holds for the empty string).
\<close>

definition updatePerk :: "reader \<Rightarrow> string option \<Rightarrow> object option \<Rightarrow> store \<Rightarrow> result" where
  "updatePerk rd id_p body_p s =
     (case id_p of
        None \<Rightarrow> reply (Respond 400 (Message ''Missing id parameter'')) [] s
      | Some ident \<Rightarrow>
          if ident = [] then reply (Respond 400 (Message ''Missing id parameter'')) [] s
          else
            (case body_p of
               None \<Rightarrow> reply (Respond 400 (Message ''No update fields provided'')) [] s
             | Some body \<Rightarrow>
                 if length (map fst body) = 0 then
                   reply (Respond 400 (Message ''No update fields provided'')) [] s
                 else
                   (case Perk_findById ident s of
                      Inl err \<Rightarrow> reply (update_catch err) [FindById ident] s
                    | Inr None \<Rightarrow> reply (Respond 404 (Message ''Perk not found'')) [FindById ident] s
                    | Inr (Some d) \<Rightarrow>
                        (case validate rd update_prefs perkSchema body of
                           Inl errs \<Rightarrow>
                             reply (Respond 400 (Failure ''Validation failed'' (map message errs)))
                               [FindById ident] s
                         | Inr val \<Rightarrow>
                             (case Perk_save (assign d val) s of
                                Inl err \<Rightarrow>
                                  reply (update_catch err) [FindById ident, Save (assign d val)] s
                              | Inr (updated, s') \<Rightarrow>
                                  reply (Respond 200 (PerkDoc updated))
                                    [FindById ident, Save (assign d val)] s')))))"

definition deletePerk :: "string \<Rightarrow> store \<Rightarrow> result" where
  "deletePerk ident s =
     (case Perk_findByIdAndDelete ident s of
        Inl err \<Rightarrow> reply (Next err) [FindByIdAndDelete ident] s
      | Inr (None, s') \<Rightarrow> reply (Respond 404 (Message ''Perk not found'')) [FindByIdAndDelete ident] s'
      | Inr (Some d, s') \<Rightarrow> reply (Respond 200 Ok) [FindByIdAndDelete ident] s')"

section \<open>Notions used in the statements\<close>

text \<open>
  The errors of one key of a schema on an object: what validating the value the object
  has at that key (or its absence) reports.
\<close>

definition field_errors :: "reader \<Rightarrow> prefs \<Rightarrow> object \<Rightarrow> string \<times> key_schema \<Rightarrow> joi_error list" where
  "field_errors rd p obj f = fst (validate_value rd p (fst f) (snd f) (map_of obj (fst f)))"

text \<open>
  Every error a validation finds when it does not stop at the first: those of the keys
  of the schema, in the schema's order, then one for each unknown key unless the
  preferences allow or strip them.
\<close>

definition all_errors ::
  "reader \<Rightarrow> prefs \<Rightarrow> (string \<times> key_schema) list \<Rightarrow> object \<Rightarrow> joi_error list" where
  "all_errors rd p schema obj =
     concat (map (field_errors rd (p\<lparr>abortEarly := False\<rparr>) obj) schema)
       @ (if allowUnknown p \<or> stripUnknown p then [] else map ObjectUnknown (unknown_keys schema obj))"

subsection \<open>The spec's validation policy for create\<close>

text \<open>
  In the spec's words: \<open>title\<close> required, of length at least 2; \<open>category\<close> one of the
  enum values when present; \<open>discountPercent\<close> in [0, 100] when present; \<open>description\<close>
  and \<open>merchant\<close> optional texts; no unknown field.
\<close>

fun is_text :: "json option \<Rightarrow> bool" where
  "is_text None = True"
| "is_text (Some (JStr t)) = True"
| "is_text (Some v) = False"

definition valid_input :: "object \<Rightarrow> bool" where
  "valid_input body =
     ((case map_of body ''title'' of Some (JStr t) \<Rightarrow> 2 \<le> length t | _ \<Rightarrow> False) \<and>
      is_text (map_of body ''description'') \<and>
      (case map_of body ''category'' of
         None \<Rightarrow> True | Some (JStr c) \<Rightarrow> c \<in> set categories | _ \<Rightarrow> False) \<and>
      (case map_of body ''discountPercent'' of
         None \<Rightarrow> True | Some (JNum r) \<Rightarrow> 0 \<le> r \<and> r \<le> 100 | _ \<Rightarrow> False) \<and>
      is_text (map_of body ''merchant'') \<and>
      list_all (\<lambda>k. k \<in> fst ` set perkSchema) (map fst body))"

subsection \<open>Example data\<close>

definition gym :: perk where
  "gym = \<lparr>pid = 1, title = ''Gym pass'', description = ''old'', category = ''fitness'',
     discountPercent = 20, merchant = ''FitCo'', createdAt = 5\<rparr>"

definition gym_id :: string where
  "gym_id = ''000000000000000000000001''"

text \<open>A reader that takes no string for a number.\<close>

definition no_reader :: reader where
  "no_reader s = NotNumeric"

definition gym_later :: perk where
  "gym_later = gym\<lparr>pid := 3, merchant := ''Other gym'', createdAt := 9\<rparr>"

definition gym_plus :: perk where
  "gym_plus = gym\<lparr>pid := 2, title := ''Gym pass plus''\<rparr>"

definition gym_body :: object where
  "gym_body = [(''title'', JStr ''Gym pass''), (''merchant'', JStr ''FitCo'')]"

definition gym_value :: object where
  "gym_value = [(''title'', JStr ''Gym pass''), (''merchant'', JStr ''FitCo''),
     (''category'', JStr ''other''), (''discountPercent'', JNum 0)]"

definition gym_created :: perk where
  "gym_created = \<lparr>pid = 7, title = ''Gym pass'', description = [], category = ''other'',
     discountPercent = 0, merchant = ''FitCo'', createdAt = 5\<rparr>"

definition plain_body :: object where
  "plain_body = [(''title'', JStr ''Gym pass'')]"

definition plain_created :: perk where
  "plain_created = \<lparr>pid = 8, title = ''Gym pass'', description = [], category = ''other'',
     discountPercent = 0, merchant = [], createdAt = 6\<rparr>"

definition bad_body :: object where
  "bad_body = [(''title'', JStr ''G''), (''discountPercent'', JNum 150), (''colour'', JStr ''red'')]"

section \<open>The validator: properties of the key loop\<close>

lemma presence_of_abortEarly [simp]: "presence_of (p\<lparr>abortEarly := b\<rparr>) sch = presence_of p sch"
  by (simp add: presence_of_def split: option.splits)

lemma run_rules_abort: "run_rules True k rs v = take 1 (run_rules False k rs v)"
  by (induction rs) (auto split: option.splits)

lemma validate_value_abort_errors:
  "fst (validate_value rd (p\<lparr>abortEarly := True\<rparr>) k sch item)
     = take 1 (fst (validate_value rd (p\<lparr>abortEarly := False\<rparr>) k sch item))"
  by (auto simp: validate_value_def finalize_def run_rules_abort Let_def
      split: option.splits sum.splits)

lemma validate_value_abort_value:
  "snd (validate_value rd (p\<lparr>abortEarly := b\<rparr>) k sch item) = snd (validate_value rd p k sch item)"
  by (auto simp: validate_value_def finalize_def Let_def split: option.splits sum.splits)

lemma run_rules_key: "e \<in> set (run_rules ae k rs v) \<Longrightarrow> error_key e = k"
  by (induction rs) (auto split: option.splits if_splits elim!: check_rule.elims)

lemma validate_value_key: "e \<in> set (fst (validate_value rd p k sch item)) \<Longrightarrow> error_key e = k"
  by (auto simp: validate_value_def finalize_def Let_def dest: run_rules_key
      split: option.splits sum.splits if_splits base_type.splits json.splits num_reading.splits elim!: coerce.elims)

lemma take1_append: "xs \<noteq> [] \<Longrightarrow> take 1 (xs @ ys) = take 1 xs"
  by (cases xs) simp_all

lemma field_errors_cong:
  "\<forall>f \<in> set ks. map_of val' (fst f) = map_of val (fst f) \<Longrightarrow>
     map (field_errors rd p val') ks = map (field_errors rd p val) ks"
  by (simp add: field_errors_def cong: map_cong)

lemma validate_keys_errs_nonempty:
  "errs \<noteq> [] \<Longrightarrow> fst (validate_keys rd p ks errs val) \<noteq> []"
proof (induction ks arbitrary: errs val)
  case Nil
  then show ?case by simp
next
  case (Cons f ks)
  obtain k sch where f: "f = (k, sch)" by (cases f)
  obtain es res where vv: "validate_value rd p k sch (map_of val k) = (es, res)"
    by (cases "validate_value rd p k sch (map_of val k)")
  have "errs @ es \<noteq> []" using Cons.prems by simp
  then show ?case
    using Cons.IH [of errs] Cons.IH [of "errs @ es"] Cons.prems
    by (simp add: f vv split: option.splits)
qed

lemma validate_keys_other_key:
  "k \<notin> fst ` set ks \<Longrightarrow> map_of (snd (validate_keys rd p ks errs val)) k = map_of val k"
proof (induction ks arbitrary: errs val)
  case Nil
  then show ?case by simp
next
  case (Cons f ks)
  obtain k' sch where f: "f = (k', sch)" by (cases f)
  from Cons.prems f have ne: "k \<noteq> k'" and notin: "k \<notin> fst ` set ks" by auto
  show ?case
    using Cons.IH [OF notin] ne
    by (simp add: f update_conv' delete_conv' split: prod.splits option.splits)
qed

lemma validate_keys_full_errors:
  "\<not> abortEarly p \<Longrightarrow> distinct (map fst ks) \<Longrightarrow>
     fst (validate_keys rd p ks errs val) = errs @ concat (map (field_errors rd p val) ks)"
proof (induction ks arbitrary: errs val)
  case Nil
  then show ?case by simp
next
  case (Cons f ks)
  obtain k sch where f: "f = (k, sch)" by (cases f)
  obtain es res where vv: "validate_value rd p k sch (map_of val k) = (es, res)"
    by (cases "validate_value rd p k sch (map_of val k)")
  from Cons.prems f have notin: "k \<notin> fst ` set ks" and dist: "distinct (map fst ks)" by auto
  from notin have neq: "\<forall>g \<in> set ks. fst g \<noteq> k" by force
  have same_upd: "map (field_errors rd p (AList.update k v val)) ks = map (field_errors rd p val) ks" for v
    using neq by (intro field_errors_cong) (auto simp: update_conv')
  have same_del: "map (field_errors rd p (AList.delete k val)) ks = map (field_errors rd p val) ks"
    using neq by (intro field_errors_cong) (auto simp: delete_conv')
  have head: "field_errors rd p val f = es"
    by (simp add: field_errors_def f vv)
  show ?case
    using Cons.IH [OF Cons.prems(1) dist] Cons.prems(1)
    by (simp add: f vv head [unfolded f] same_upd same_del split: option.splits)
qed

lemma validate_keys_abort_errors:
  "distinct (map fst ks) \<Longrightarrow>
     fst (validate_keys rd (p\<lparr>abortEarly := True\<rparr>) ks [] val)
       = take 1 (concat (map (field_errors rd (p\<lparr>abortEarly := False\<rparr>) val) ks))"
proof (induction ks arbitrary: val)
  case Nil
  then show ?case by simp
next
  case (Cons f ks)
  obtain k sch where f: "f = (k, sch)" by (cases f)
  let ?pT = "p\<lparr>abortEarly := True\<rparr>" and ?pF = "p\<lparr>abortEarly := False\<rparr>"
  obtain es res where vv: "validate_value rd ?pT k sch (map_of val k) = (es, res)"
    by (cases "validate_value rd ?pT k sch (map_of val k)")
  define esF where "esF = field_errors rd ?pF val f"
  have es: "es = take 1 esF"
    using validate_value_abort_errors [of rd p k sch "map_of val k"]
    by (simp add: vv esF_def field_errors_def f)
  from Cons.prems f have notin: "k \<notin> fst ` set ks" and dist: "distinct (map fst ks)" by auto
  from notin have neq: "\<forall>g \<in> set ks. fst g \<noteq> k" by force
  have same_upd: "map (field_errors rd ?pF (AList.update k v val)) ks = map (field_errors rd ?pF val) ks" for v
    using neq by (intro field_errors_cong) (auto simp: update_conv')
  have same_del: "map (field_errors rd ?pF (AList.delete k val)) ks = map (field_errors rd ?pF val) ks"
    using neq by (intro field_errors_cong) (auto simp: delete_conv')
  show ?case
  proof (cases "esF = []")
    case True
    then show ?thesis
      using Cons.IH [OF dist] es esF_def
      by (simp add: f vv same_upd same_del split: option.splits)
  next
    case False
    then have ne: "es \<noteq> []" by (simp add: es)
    have "concat (map (field_errors rd ?pF val) (f # ks))
        = esF @ concat (map (field_errors rd ?pF val) ks)"
      by (simp add: esF_def)
    then have rhs: "take 1 (concat (map (field_errors rd ?pF val) (f # ks))) = take 1 esF"
      by (simp only: take1_append [OF False])
    have lhs: "fst (validate_keys rd ?pT (f # ks) [] val) = es"
      using ne by (simp add: f vv)
    show ?thesis by (simp only: lhs rhs es)
  qed
qed

lemma validate_keys_success:
  "validate_keys rd p ks errs val = ([], val') \<Longrightarrow> distinct (map fst ks) \<Longrightarrow> f \<in> set ks \<Longrightarrow>
     validate_value rd p (fst f) (snd f) (map_of val (fst f)) = ([], map_of val' (fst f))"
proof (induction ks arbitrary: errs val)
  case Nil
  then show ?case by simp
next
  case (Cons g ks)
  obtain k sch where g: "g = (k, sch)" by (cases g)
  obtain es res where vv: "validate_value rd p k sch (map_of val k) = (es, res)"
    by (cases "validate_value rd p k sch (map_of val k)")
  from Cons.prems g have notin: "k \<notin> fst ` set ks" and dist: "distinct (map fst ks)" by auto
  have es: "es = []"
  proof (rule ccontr)
    assume ne: "es \<noteq> []"
    then have "errs @ es \<noteq> []" by simp
    then have "fst (validate_keys rd p ks (errs @ es) val2) \<noteq> []" for val2
      by (rule validate_keys_errs_nonempty)
    then have "validate_keys rd p ks (errs @ es) val2 \<noteq> ([], val')" for val2
      by (metis fst_conv)
    with ne Cons.prems(1) show False
      by (simp add: g vv split: if_splits)
  qed
  define val1 where "val1 = (case res of None \<Rightarrow> AList.delete k val | Some v \<Rightarrow> AList.update k v val)"
  have rest: "validate_keys rd p ks errs val1 = ([], val')"
    using Cons.prems(1) by (simp add: g vv es val1_def split: option.splits)
  have at_k: "map_of val1 k = res"
    by (simp add: val1_def update_conv' delete_conv' split: option.splits)
  have other: "map_of val1 j = map_of val j" if "j \<noteq> k" for j
    using that by (simp add: val1_def update_conv' delete_conv' split: option.splits)
  show ?case
  proof (cases "f = g")
    case True
    have "map_of val' k = map_of val1 k"
      using validate_keys_other_key [OF notin, of rd p errs val1] by (simp add: rest)
    then show ?thesis by (simp add: True g vv es at_k)
  next
    case False
    then have mem: "f \<in> set ks" using Cons.prems(3) by simp
    then have "fst f \<noteq> k" using notin by auto
    then show ?thesis using Cons.IH [OF rest dist mem] by (simp add: other)
  qed
qed

lemma map_of_foldr_delete:
  "map_of (foldr AList.delete ks val) k = (if k \<in> set ks then None else map_of val k)"
  by (induction ks) (auto simp: delete_conv')

lemma forbid_unknown_full: "forbid_unknown False ks = map ObjectUnknown ks"
  by (induction ks) auto

lemma forbid_unknown_abort: "forbid_unknown True ks = take 1 (map ObjectUnknown ks)"
  by (cases ks) auto

lemma validate_success:
  assumes "validate rd p schema obj = Inr val'" and "distinct (map fst schema)" and "f \<in> set schema"
  shows "validate_value rd p (fst f) (snd f) (map_of obj (fst f)) = ([], map_of val' (fst f))"
proof -
  obtain errs val where vk: "validate_keys rd p schema errs0 obj = (errs, val)" if "errs0 = []" for errs0
    by (cases "validate_keys rd p schema [] obj") auto
  have vk': "validate_keys rd p schema [] obj = (errs, val)" by (simp add: vk)
  from assms(1) have errs: "errs = []"
    by (auto simp: validate_def vk' Let_def split: if_splits)
  from assms(1) have val': "val' = (if stripUnknown p then foldr AList.delete (unknown_keys schema obj) val else val)"
    by (auto simp: validate_def vk' Let_def split: if_splits)
  have "fst f \<notin> set (unknown_keys schema obj)"
    using assms(3) by (auto simp: unknown_keys_def)
  then have "map_of val' (fst f) = map_of val (fst f)"
    by (simp add: val' map_of_foldr_delete)
  then show ?thesis
    using validate_keys_success [OF vk' [unfolded errs] assms(2,3)] by simp
qed

lemma validate_full:
  assumes "distinct (map fst schema)" and "\<not> abortEarly p"
  shows "case validate rd p schema obj of
           Inl errs \<Rightarrow> errs = all_errors rd p schema obj \<and> errs \<noteq> []
         | Inr val \<Rightarrow> all_errors rd p schema obj = []"
proof -
  have p: "p\<lparr>abortEarly := False\<rparr> = p" using assms(2) by simp
  have "fst (validate_keys rd p schema [] obj) = concat (map (field_errors rd p obj) schema)"
    using validate_keys_full_errors [OF assms(2,1), of rd "[]" obj] by simp
  then show ?thesis
    using assms(2)
    by (cases "validate_keys rd p schema [] obj")
      (auto simp: validate_def all_errors_def p Let_def forbid_unknown_full)
qed

lemma validate_abort:
  assumes "distinct (map fst schema)" and "abortEarly p"
  shows "case validate rd p schema obj of
           Inl errs \<Rightarrow> errs = take 1 (all_errors rd p schema obj) \<and> errs \<noteq> []
         | Inr val \<Rightarrow> all_errors rd p schema obj = []"
proof -
  define fe where "fe = concat (map (field_errors rd (p\<lparr>abortEarly := False\<rparr>) obj) schema)"
  define un where "un = (if allowUnknown p \<or> stripUnknown p then []
    else map ObjectUnknown (unknown_keys schema obj))"
  have all: "all_errors rd p schema obj = fe @ un"
    by (simp add: all_errors_def fe_def un_def)
  have p: "p\<lparr>abortEarly := True\<rparr> = p" using assms(2) by simp
  obtain kerrs val where vk: "validate_keys rd p schema [] obj = (kerrs, val)"
    by (cases "validate_keys rd p schema [] obj")
  have kerrs: "kerrs = take 1 fe"
    using validate_keys_abort_errors [OF assms(1), of rd p obj] by (simp add: p vk fe_def)
  show ?thesis
  proof (cases "fe = []")
    case True
    then have "kerrs = []" by (simp add: kerrs)
    then show ?thesis
      using assms(2) True
      by (cases "unknown_keys schema obj")
        (auto simp: validate_def vk all un_def Let_def)
  next
    case False
    then have "kerrs \<noteq> []" by (simp add: kerrs)
    then have "validate rd p schema obj = Inl kerrs"
      using assms(2) by (simp add: validate_def vk)
    moreover have "take 1 (all_errors rd p schema obj) = kerrs"
      by (simp only: all kerrs take1_append [OF False])
    ultimately show ?thesis
      using \<open>kerrs \<noteq> []\<close> by simp
  qed
qed

section \<open>The schema of a perk\<close>

lemma distinct_perkSchema: "distinct (map fst perkSchema)"
  by (simp add: perkSchema_def)

lemma perkSchema_keys:
  "fst ` set perkSchema = {''title'', ''description'', ''category'', ''discountPercent'', ''merchant''}"
  by (auto simp: perkSchema_def)

lemmas schema_defs = joi_required_def joi_min_def joi_max_def joi_allow_def joi_valid_def
  joi_default_def Joi_string_def Joi_number_def

lemma coerce_string [simp]: "coerce rd StringT k v = Inr v"
  by (cases v) simp_all

lemma category_valid:
  assumes "validate_value rd p ''category'' (joi_default (JStr ''other'') (joi_valid categories Joi_string)) item
      = ([], res)"
  shows "\<exists>c. res = Some (JStr c) \<and> c \<in> set categories \<and> (item = None \<longrightarrow> c = ''other'')"
proof (cases item)
  case None
  with assms show ?thesis
    by (simp add: validate_value_def finalize_def presence_of_def schema_defs categories_def
        split: if_splits)
next
  case (Some v)
  show ?thesis
  proof (cases "v \<in> JStr ` set categories")
    case True
    with Some assms show ?thesis
      by (auto simp: validate_value_def finalize_def presence_of_def schema_defs
          split: if_splits)
  next
    case False
    with Some assms show ?thesis
      by (simp add: validate_value_def finalize_def presence_of_def schema_defs Let_def
          split: if_splits option.splits)
  qed
qed

lemma title_valid:
  assumes "validate_value rd p ''title'' (joi_required (joi_min 2 Joi_string)) item = ([], res)"
  shows "\<exists>t. item = Some (JStr t) \<and> res = Some (JStr t) \<and> 2 \<le> length t"
proof (cases item)
  case None
  with assms show ?thesis
    by (simp add: validate_value_def finalize_def presence_of_def schema_defs)
next
  case (Some v)
  with assms show ?thesis
    by (cases v)
      (simp_all add: validate_value_def finalize_def presence_of_def schema_defs
        split: if_splits)
qed

lemma text_valid:
  assumes "validate_value rd p k (joi_allow [''''] Joi_string) item = ([], res)"
  shows "(item = None \<and> res = None) \<or> (\<exists>t. item = Some (JStr t) \<and> res = Some (JStr t))"
proof (cases item)
  case None
  with assms show ?thesis
    by (simp add: validate_value_def finalize_def presence_of_def schema_defs split: if_splits)
next
  case (Some v)
  with assms show ?thesis
    by (cases v)
      (simp_all add: validate_value_def finalize_def presence_of_def schema_defs
        split: if_splits)
qed

lemma discount_valid:
  assumes "validate_value rd p ''discountPercent''
      (joi_default (JNum 0) (joi_max 100 (joi_min 0 Joi_number))) item = ([], res)"
  shows "\<exists>r. res = Some (JNum r) \<and> 0 \<le> r \<and> r \<le> 100 \<and> (item = None \<longrightarrow> r = 0)"
proof (cases item)
  case None
  with assms show ?thesis
    by (simp add: validate_value_def finalize_def presence_of_def schema_defs split: if_splits)
next
  case (Some raw)
  obtain v where co: "coerce rd NumberT ''discountPercent'' raw = Inr v"
    using assms Some
    by (cases "coerce rd NumberT ''discountPercent'' raw")
      (simp_all add: validate_value_def finalize_def schema_defs)
  from assms Some co show ?thesis
    by (cases v)
      (auto simp: validate_value_def finalize_def presence_of_def schema_defs
        split: if_splits)
qed

lemma cast_id_nonempty: "cast_id ident = Some n \<Longrightarrow> ident \<noteq> []"
  by (auto simp: cast_id_def split: if_splits)

lemma error_message_single: "error_message [e] = message e"
  by (simp add: error_message_def)

lemma create_prefs_simps [simp]:
  "abortEarly create_prefs" "\<not> allowUnknown create_prefs" "\<not> stripUnknown create_prefs"
  "presence create_prefs = Optional"
  by (simp_all add: create_prefs_def)

lemma update_prefs_simps [simp]:
  "\<not> abortEarly update_prefs" "\<not> allowUnknown update_prefs" "stripUnknown update_prefs"
  "presence update_prefs = Optional"
  by (simp_all add: update_prefs_def)

lemma validate_value_prefs:
  assumes "abortEarly p = abortEarly p'" and "presence p = presence p'"
  shows "validate_value rd p k sch item = validate_value rd p' k sch item"
proof -
  have pres: "presence_of p sch = presence_of p' sch"
    using assms(2) by (simp add: presence_of_def split: option.splits)
  show ?thesis
    unfolding validate_value_def assms(1) pres by (rule refl)
qed

lemma field_errors_prefs:
  "abortEarly p = abortEarly p' \<Longrightarrow> presence p = presence p' \<Longrightarrow>
     field_errors rd p body f = field_errors rd p' body f"
  by (simp add: field_errors_def validate_value_prefs [of p p'])

lemma all_errors_update:
  "all_errors rd update_prefs perkSchema body
     = concat (map (field_errors rd update_prefs body) perkSchema)"
proof -
  have "field_errors rd (update_prefs\<lparr>abortEarly := False\<rparr>) body = field_errors rd update_prefs body"
    by (rule ext, rule field_errors_prefs) simp_all
  then show ?thesis by (simp add: all_errors_def)
qed

lemma field_errors_create_full:
  "field_errors rd (create_prefs\<lparr>abortEarly := False\<rparr>) body = field_errors rd update_prefs body"
  by (rule ext, rule field_errors_prefs) simp_all

lemma all_errors_create:
  "all_errors rd create_prefs perkSchema body
     = concat (map (field_errors rd update_prefs body) perkSchema)
         @ map ObjectUnknown (unknown_keys perkSchema body)"
proof -
  have "field_errors rd (create_prefs\<lparr>abortEarly := False\<rparr>) body = field_errors rd update_prefs body"
    by (rule ext, rule field_errors_prefs) simp_all
  then show ?thesis by (simp add: all_errors_def)
qed

lemma filter_schema_errors:
  "filter (\<lambda>e. error_key e \<in> fst ` set schema) (all_errors rd p schema body)
     = concat (map (field_errors rd (p\<lparr>abortEarly := False\<rparr>) body) schema)"
proof -
  have known: "filter (\<lambda>e. error_key e \<in> fst ` set schema) (field_errors rd q body f)
      = field_errors rd q body f" if "f \<in> set schema" for f q
    using that by (auto simp: field_errors_def filter_id_conv dest!: validate_value_key)
  have "filter (\<lambda>e. error_key e \<in> fst ` set schema) (concat (map (field_errors rd q body) fs))
      = concat (map (field_errors rd q body) fs)" if "set fs \<subseteq> set schema" for fs q
    using that by (induction fs) (simp_all add: known)
  moreover have "filter (\<lambda>e. error_key e \<in> fst ` set schema)
      (map ObjectUnknown (unknown_keys schema body)) = []"
    by (auto simp: unknown_keys_def filter_empty_conv)
  ultimately show ?thesis
    by (simp add: all_errors_def)
qed

lemma title_errors:
  "field_errors rd p body (''title'', joi_required (joi_min 2 Joi_string)) =
     (case map_of body ''title'' of
        None \<Rightarrow> [AnyRequired ''title'']
      | Some (JStr t) \<Rightarrow>
          if t = [] then [StringEmpty ''title'']
          else if length t < 2 then [StringMinE ''title'' 2] else []
      | Some v \<Rightarrow> [StringBase ''title''])"
proof (cases "map_of body ''title''")
  case None
  then show ?thesis
    by (simp add: field_errors_def validate_value_def finalize_def presence_of_def schema_defs)
next
  case (Some v)
  then show ?thesis
    by (cases v)
      (simp_all add: field_errors_def validate_value_def finalize_def presence_of_def schema_defs)
qed

lemma text_errors:
  "is_text (map_of body k) \<Longrightarrow> field_errors rd update_prefs body (k, joi_allow [''''] Joi_string) = []"
proof (cases "map_of body k")
  case None
  then show ?thesis
    by (simp add: field_errors_def validate_value_def finalize_def presence_of_def schema_defs)
next
  case (Some v)
  assume "is_text (map_of body k)"
  with Some show ?thesis
    by (cases v)
      (simp_all add: field_errors_def validate_value_def finalize_def presence_of_def schema_defs)
qed

lemma category_errors:
  assumes "case map_of body ''category'' of
      None \<Rightarrow> True | Some (JStr c) \<Rightarrow> c \<in> set categories | _ \<Rightarrow> False"
  shows "field_errors rd update_prefs body
      (''category'', joi_default (JStr ''other'') (joi_valid categories Joi_string)) = []"
proof (cases "map_of body ''category''")
  case None
  then show ?thesis
    by (simp add: field_errors_def validate_value_def finalize_def presence_of_def schema_defs)
next
  case (Some v)
  with assms show ?thesis
    by (cases v)
      (simp_all add: field_errors_def validate_value_def finalize_def presence_of_def schema_defs)
qed

lemma discount_errors:
  assumes "case map_of body ''discountPercent'' of
      None \<Rightarrow> True | Some (JNum r) \<Rightarrow> 0 \<le> r \<and> r \<le> 100 | _ \<Rightarrow> False"
  shows "field_errors rd update_prefs body
      (''discountPercent'', joi_default (JNum 0) (joi_max 100 (joi_min 0 Joi_number))) = []"
proof (cases "map_of body ''discountPercent''")
  case None
  then show ?thesis
    by (simp add: field_errors_def validate_value_def finalize_def presence_of_def schema_defs)
next
  case (Some v)
  with assms show ?thesis
    by (cases v)
      (simp_all add: field_errors_def validate_value_def finalize_def presence_of_def schema_defs
        max_safe_integer_def)
qed

lemma valid_input_no_errors:
  assumes "valid_input body"
  shows "all_errors rd create_prefs perkSchema body = []"
proof -
  from assms have "field_errors rd update_prefs body (''title'', joi_required (joi_min 2 Joi_string)) = []"
    by (auto simp: valid_input_def title_errors split: option.splits json.splits)
  moreover from assms have "unknown_keys perkSchema body = []"
    by (auto simp: valid_input_def unknown_keys_def filter_empty_conv list_all_iff)
  ultimately show ?thesis
    using assms
    by (simp add: all_errors_create valid_input_def text_errors category_errors discount_errors)
      (simp add: perkSchema_def text_errors category_errors discount_errors)
qed

lemma create_value:
  assumes "validate rd create_prefs perkSchema body = Inr val"
  shows "(\<exists>t. map_of val ''title'' = Some (JStr t) \<and> 2 \<le> length t) \<and>
    (\<exists>c. map_of val ''category'' = Some (JStr c) \<and> c \<in> set categories \<and>
       (map_of body ''category'' = None \<longrightarrow> c = ''other'')) \<and>
    (\<exists>r. map_of val ''discountPercent'' = Some (JNum r) \<and> 0 \<le> r \<and> r \<le> 100 \<and>
       (map_of body ''discountPercent'' = None \<longrightarrow> r = 0)) \<and>
    (map_of body ''description'' = None \<longrightarrow> map_of val ''description'' = None) \<and>
    (map_of body ''merchant'' = None \<longrightarrow> map_of val ''merchant'' = None)"
proof -
  note ok = validate_success [OF assms distinct_perkSchema]
  have "(''title'', joi_required (joi_min 2 Joi_string)) \<in> set perkSchema"
    by (simp add: perkSchema_def)
  from title_valid [OF ok [OF this, simplified]] have 1: "\<exists>t. map_of val ''title'' = Some (JStr t) \<and> 2 \<le> length t"
    by auto
  have "(''category'', joi_default (JStr ''other'') (joi_valid categories Joi_string)) \<in> set perkSchema"
    by (simp add: perkSchema_def)
  from category_valid [OF ok [OF this, simplified]] have 2: "\<exists>c. map_of val ''category'' = Some (JStr c) \<and> c \<in> set categories \<and>
       (map_of body ''category'' = None \<longrightarrow> c = ''other'')"
    by auto
  have "(''discountPercent'', joi_default (JNum 0) (joi_max 100 (joi_min 0 Joi_number))) \<in> set perkSchema"
    by (simp add: perkSchema_def)
  from discount_valid [OF ok [OF this, simplified]] have 3: "\<exists>r. map_of val ''discountPercent'' = Some (JNum r) \<and> 0 \<le> r \<and> r \<le> 100 \<and>
       (map_of body ''discountPercent'' = None \<longrightarrow> r = 0)"
    by auto
  have "(''description'', joi_allow [''''] Joi_string) \<in> set perkSchema"
    by (simp add: perkSchema_def)
  from text_valid [OF ok [OF this, simplified]] have 4: "map_of body ''description'' = None \<longrightarrow> map_of val ''description'' = None"
    by auto
  have "(''merchant'', joi_allow [''''] Joi_string) \<in> set perkSchema"
    by (simp add: perkSchema_def)
  from text_valid [OF ok [OF this, simplified]] have 5: "map_of body ''merchant'' = None \<longrightarrow> map_of val ''merchant'' = None"
    by auto
  from 1 2 3 4 5 show ?thesis by blast
qed

section \<open>The handlers: refusing invalid bodies\<close>

lemma createPerk_rejects:
  assumes "all_errors rd create_prefs perkSchema body \<noteq> []"
  shows "createPerk rd now oid body s
     = reply (Respond 400 (Message (message (hd (all_errors rd create_prefs perkSchema body))))) [] s"
proof -
  from validate_abort [OF distinct_perkSchema, of create_prefs rd body] assms
  obtain errs where errs: "validate rd create_prefs perkSchema body = Inl errs"
    and take: "errs = take 1 (all_errors rd create_prefs perkSchema body)"
    by (cases "validate rd create_prefs perkSchema body") auto
  from take assms have "errs = [hd (all_errors rd create_prefs perkSchema body)]"
    by (cases "all_errors rd create_prefs perkSchema body") simp_all
  then show ?thesis
    by (simp add: createPerk_def errs error_message_single)
qed

lemma updatePerk_rejects:
  assumes "body \<noteq> []" and "Perk_findById ident s = Inr (Some d)"
    and "all_errors rd update_prefs perkSchema body \<noteq> []"
  shows "updatePerk rd (Some ident) (Some body) s
     = reply (Respond 400 (Failure ''Validation failed''
         (map message (all_errors rd update_prefs perkSchema body)))) [FindById ident] s"
proof -
  from assms(2) have ne: "ident \<noteq> []"
    by (auto simp: Perk_findById_def split: option.splits dest: cast_id_nonempty)
  from validate_full [OF distinct_perkSchema, of update_prefs rd body] assms(3)
  have "validate rd update_prefs perkSchema body = Inl (all_errors rd update_prefs perkSchema body)"
    by (cases "validate rd update_prefs perkSchema body") auto
  then show ?thesis
    using assms(1,2) ne by (simp add: updatePerk_def)
qed

lemma gym_found: "Perk_findById gym_id [gym] = Inr (Some gym)"
  by (simp add: Perk_findById_def cast_id_def gym_id_def gym_def hex_digit_def)

section \<open>The claims\<close>

text \<open>
  C1. The claim: an update whose body supplies only \<open>description\<close> changes only
  \<open>description\<close> on the stored record. The code does not do this. The \<open>required()\<close>
  flag of \<open>title\<close> is stronger than the preference \<open>presence: 'optional'\<close> of the
  call, so for every existing record and every new description the update is refused
  with status 400, "Validation failed", the one detail being that \<open>title\<close> is required;
  nothing is saved, and \<open>description\<close> keeps its old value.
\<close>

theorem updatePerk_description_only:
  assumes "Perk_findById ident s = Inr (Some d)"
  shows "updatePerk rd (Some ident) (Some [(''description'', JStr new)]) s
     = reply (Respond 400 (Failure ''Validation failed'' [label ''title'' @ '' is required'']))
         [FindById ident] s"
proof -
  from assms have "ident \<noteq> []"
    by (auto simp: Perk_findById_def split: option.splits dest: cast_id_nonempty)
  moreover have "validate rd update_prefs perkSchema [(''description'', JStr new)]
      = Inl [AnyRequired ''title'']"
    by (simp add: validate_def update_prefs_def perkSchema_def validate_value_def presence_of_def
        finalize_def schema_defs unknown_keys_def categories_def)
  ultimately show ?thesis
    using assms by (simp add: updatePerk_def)
qed

theorem updatePerk_description_only_witness:
  "updatePerk no_reader (Some gym_id) (Some [(''description'', JStr ''new'')]) [gym]
     = reply (Respond 400 (Failure ''Validation failed'' [label ''title'' @ '' is required'']))
         [FindById gym_id] [gym]"
  by (rule updatePerk_description_only [OF gym_found])

text \<open>
  The defaults of the schema are applied on update as well: when the body does carry a
  title, the keys it leaves out take their defaults in the validated value, and
  \<open>Object.assign\<close> writes them over the stored \<open>category\<close> and \<open>discountPercent\<close>.
\<close>

lemma updatePerk_resets_defaults:
  "updatePerk no_reader (Some gym_id)
      (Some [(''title'', JStr ''Gym pass''), (''description'', JStr ''new'')]) [gym]
     = reply (Respond 200 (PerkDoc (gym\<lparr>description := ''new'', category := ''other'',
         discountPercent := 0\<rparr>)))
         [FindById gym_id, Save (gym\<lparr>description := ''new'', category := ''other'',
           discountPercent := 0\<rparr>)]
         [gym\<lparr>description := ''new'', category := ''other'', discountPercent := 0\<rparr>]"
  by code_simp

text \<open>
  C2. The claim: \<open>getPerk\<close> and \<open>deletePerk\<close> answer a malformed identifier with a bad
  request, and a well-formed identifier that matches no record with "not found". What the
  code does: on a malformed identifier neither handler sends a response; each hands the
  store's CastError to \<open>next\<close>. On a well-formed identifier without a record both answer
  404 "Perk not found", and \<open>deletePerk\<close> leaves the collection as it was.
\<close>

theorem getPerk_deletePerk_identifiers:
  "(cast_id ident = None \<longrightarrow>
      getPerk ident s = reply (Next CastError) [FindById ident] s \<and>
      deletePerk ident s = reply (Next CastError) [FindByIdAndDelete ident] s) \<and>
   (cast_id ident = Some n \<and> find (\<lambda>q. pid q = n) s = None \<longrightarrow>
      getPerk ident s = reply (Respond 404 (Message ''Perk not found'')) [FindById ident] s \<and>
      deletePerk ident s
        = reply (Respond 404 (Message ''Perk not found'')) [FindByIdAndDelete ident] s)"
  by (simp add: getPerk_def deletePerk_def Perk_findById_def Perk_findByIdAndDelete_def)

theorem getPerk_deletePerk_identifiers_witness:
  "outcome (getPerk ''abc'' [gym]) = Next CastError \<and>
   outcome (deletePerk ''abc'' [gym]) = Next CastError \<and>
   store (deletePerk ''abc'' [gym]) = [gym] \<and>
   outcome (getPerk ''000000000000000000000002'' [gym]) = Respond 404 (Message ''Perk not found'') \<and>
   outcome (deletePerk ''000000000000000000000002'' [gym]) = Respond 404 (Message ''Perk not found'')"
proof -
  have bad: "cast_id ''abc'' = None"
    by (simp add: cast_id_def)
  have good: "cast_id ''000000000000000000000002'' = Some 2"
    by (simp add: cast_id_def hex_digit_def)
  have absent: "find (\<lambda>q. pid q = 2) [gym] = None"
    by (simp add: gym_def)
  show ?thesis
    using getPerk_deletePerk_identifiers [of "''abc''" "[gym]" 0]
      getPerk_deletePerk_identifiers [of "''000000000000000000000002''" "[gym]" 2]
      bad good absent
    by (simp add: reply_def)
qed

text \<open>
  \<open>updatePerk\<close>, the third handler that looks a record up by identifier, does turn the
  CastError into a 400.
\<close>

lemma updatePerk_malformed_id:
  "ident \<noteq> [] \<Longrightarrow> body \<noteq> [] \<Longrightarrow> cast_id ident = None \<Longrightarrow>
     updatePerk rd (Some ident) (Some body) s
       = reply (Respond 400 (Message ''Invalid id format'')) [FindById ident] s"
  by (simp add: updatePerk_def Perk_findById_def update_catch_def CastError_def)

text \<open>
  C3. Every record that \<open>createPerk\<close> returns (status 201) has its \<open>discountPercent\<close>
  between 0 and 100 and its \<open>category\<close> among the five of the schema; a \<open>category\<close>
  left out of the body is "other", a \<open>discountPercent\<close> left out is 0, a \<open>description\<close>
  or \<open>merchant\<close> left out is the empty string. An input that is valid by the spec's policy
  gets such a record, unless the store refuses it as a duplicate. A body with a key the
  schema does not know is refused with status 400, and nothing is stored.
\<close>

theorem createPerk_record:
  "(outcome (createPerk rd now oid body s) = Respond 201 (PerkDoc d) \<longrightarrow>
      0 \<le> discountPercent d \<and> discountPercent d \<le> 100 \<and> category d \<in> set categories \<and>
      (map_of body ''category'' = None \<longrightarrow> category d = ''other'') \<and>
      (map_of body ''discountPercent'' = None \<longrightarrow> discountPercent d = 0) \<and>
      (map_of body ''description'' = None \<longrightarrow> description d = []) \<and>
      (map_of body ''merchant'' = None \<longrightarrow> merchant d = [])) \<and>
   (valid_input body \<longrightarrow>
      (\<exists>d'. outcome (createPerk rd now oid body s) = Respond 201 (PerkDoc d')) \<or>
      outcome (createPerk rd now oid body s)
        = Respond 409 (Message ''Duplicate perk for this merchant'')) \<and>
   ((\<exists>k \<in> fst ` set body. k \<notin> fst ` set perkSchema) \<longrightarrow>
      (\<exists>m. createPerk rd now oid body s = reply (Respond 400 (Message m)) [] s))"
proof (intro conjI impI)
  assume created: "outcome (createPerk rd now oid body s) = Respond 201 (PerkDoc d)"
  then obtain val where val: "validate rd create_prefs perkSchema body = Inr val"
    by (cases "validate rd create_prefs perkSchema body") (simp_all add: createPerk_def reply_def)
  from created val have d: "d = assign (new_perk oid now) val"
    by (auto simp: createPerk_def reply_def Perk_create_def Let_def
        split: sum.splits option.splits json.splits if_splits)
  from create_value [OF val] show "0 \<le> discountPercent d" "discountPercent d \<le> 100"
    "category d \<in> set categories"
    by (auto simp: d assign_def)
  { assume "map_of body ''category'' = None"
    with create_value [OF val] show "category d = ''other''" by (auto simp: d assign_def) }
  { assume "map_of body ''discountPercent'' = None"
    with create_value [OF val] show "discountPercent d = 0" by (auto simp: d assign_def) }
  { assume "map_of body ''description'' = None"
    with create_value [OF val] show "description d = []" by (auto simp: d assign_def new_perk_def) }
  { assume "map_of body ''merchant'' = None"
    with create_value [OF val] show "merchant d = []" by (auto simp: d assign_def new_perk_def) }
next
  assume "valid_input body"
  from valid_input_no_errors [OF this, of rd]
    validate_abort [OF distinct_perkSchema, of create_prefs rd body]
  obtain val where val: "validate rd create_prefs perkSchema body = Inr val"
    by (cases "validate rd create_prefs perkSchema body") auto
  from create_value [OF val] obtain t where "map_of val ''title'' = Some (JStr t)" by blast
  then show "(\<exists>d'. outcome (createPerk rd now oid body s) = Respond 201 (PerkDoc d')) \<or>
      outcome (createPerk rd now oid body s)
        = Respond 409 (Message ''Duplicate perk for this merchant'')"
    by (simp add: createPerk_def val Perk_create_def Let_def reply_def DuplicateKey_def)
next
  assume "\<exists>k \<in> fst ` set body. k \<notin> fst ` set perkSchema"
  then have "unknown_keys perkSchema body \<noteq> []"
    by (auto simp: unknown_keys_def filter_empty_conv)
  then have "all_errors rd create_prefs perkSchema body \<noteq> []"
    by (simp add: all_errors_create)
  from createPerk_rejects [OF this] show "\<exists>m. createPerk rd now oid body s = reply (Respond 400 (Message m)) [] s"
    by blast
qed

theorem createPerk_record_witness:
  "outcome (createPerk no_reader 6 8 plain_body [gym]) = Respond 201 (PerkDoc plain_created) \<and>
   valid_input plain_body \<and>
   0 \<le> discountPercent plain_created \<and> discountPercent plain_created \<le> 100 \<and>
   category plain_created = ''other'' \<and> discountPercent plain_created = 0 \<and>
   description plain_created = [] \<and> merchant plain_created = [] \<and>
   (\<exists>m. createPerk no_reader 6 8 [(''title'', JStr ''Gym pass''), (''colour'', JStr ''red'')] [gym]
      = reply (Respond 400 (Message m)) [] [gym])"
proof -
  have created: "outcome (createPerk no_reader 6 8 plain_body [gym]) = Respond 201 (PerkDoc plain_created)"
    by code_simp
  have valid: "valid_input plain_body"
    by code_simp
  have absent: "map_of plain_body ''category'' = None" "map_of plain_body ''discountPercent'' = None"
    "map_of plain_body ''description'' = None" "map_of plain_body ''merchant'' = None"
    by (simp_all add: plain_body_def)
  have unknown: "\<exists>k \<in> fst ` set [(''title'', JStr ''Gym pass''), (''colour'', JStr ''red'')].
      k \<notin> fst ` set perkSchema"
    by (simp add: perkSchema_def)
  show ?thesis
    using createPerk_record [of no_reader 6 8 plain_body "[gym]" plain_created]
      createPerk_record [of no_reader 6 8 "[(''title'', JStr ''Gym pass''), (''colour'', JStr ''red'')]" "[gym]" plain_created]
      created valid absent unknown
    by simp
qed

text \<open>
  C4. An update of an existing record in which some field of the schema fails its
  validation is refused with status 400, "Validation failed", and the details are the
  messages of all the errors of all the fields, in the schema's order: the validation
  does not stop at the first. The handler made no call but the lookup, and the
  collection is unchanged.
\<close>

theorem updatePerk_validation_failure:
  assumes "body \<noteq> []"
    and "Perk_findById ident s = Inr (Some d)"
    and "\<exists>f \<in> set perkSchema. field_errors rd update_prefs body f \<noteq> []"
  shows "updatePerk rd (Some ident) (Some body) s
     = reply (Respond 400 (Failure ''Validation failed''
         (map message (concat (map (field_errors rd update_prefs body) perkSchema)))))
         [FindById ident] s"
proof -
  from assms(3) have "all_errors rd update_prefs perkSchema body \<noteq> []"
    by (auto simp: all_errors_update)
  from updatePerk_rejects [OF assms(1,2) this] show ?thesis
    by (simp add: all_errors_update)
qed

theorem updatePerk_validation_failure_witness:
  "updatePerk no_reader (Some gym_id) (Some [(''discountPercent'', JNum 150)]) [gym]
     = reply (Respond 400 (Failure ''Validation failed''
         [label ''title'' @ '' is required'',
          label ''discountPercent'' @ '' must be less than or equal to 100'']))
         [FindById gym_id] [gym]"
proof -
  let ?body = "[(''discountPercent'', JNum 150)]"
  have ne: "?body \<noteq> []" by simp
  have errs: "map (field_errors no_reader update_prefs ?body) perkSchema
      = [[AnyRequired ''title''], [], [], [NumberMaxE ''discountPercent'' 100], []]"
    by code_simp
  have bad: "\<exists>f \<in> set perkSchema. field_errors no_reader update_prefs ?body f \<noteq> []"
    by code_simp
  have hundred: "show_nat 100 = ''100''" by code_simp
  show ?thesis
    using updatePerk_validation_failure [OF ne gym_found bad]
    by (simp add: errs hundred)
qed

lemma gym_body_valid: "validate no_reader create_prefs perkSchema gym_body = Inr gym_value"
  by code_simp

lemma gym_first_create:
  "createPerk no_reader 5 7 gym_body [] = reply (Respond 201 (PerkDoc gym_created)) [Create gym_value] [gym_created]"
  by code_simp

text \<open>
  C5. When the input is valid and the store refuses the insert with the error code of a
  uniqueness violation (11000), \<open>createPerk\<close> answers 409 with the message
  "Duplicate perk for this merchant" (the spec quotes it without the capital), and the
  collection is unchanged.
\<close>

theorem createPerk_conflict:
  assumes "validate rd create_prefs perkSchema body = Inr val"
    and "Perk_create now oid val s = Inl err"
    and "err_code err = Some 11000"
  shows "createPerk rd now oid body s
     = reply (Respond 409 (Message ''Duplicate perk for this merchant'')) [Create val] s"
  using assms by (simp add: createPerk_def)

theorem createPerk_conflict_witness:
  "createPerk no_reader 5 7 gym_body []
     = reply (Respond 201 (PerkDoc gym_created)) [Create gym_value] [gym_created] \<and>
   createPerk no_reader 6 8 gym_body (store (createPerk no_reader 5 7 gym_body []))
     = reply (Respond 409 (Message ''Duplicate perk for this merchant'')) [Create gym_value]
         [gym_created]"
proof -
  have refused: "Perk_create 6 8 gym_value [gym_created] = Inl DuplicateKey"
    by code_simp
  have code: "err_code DuplicateKey = Some 11000"
    by (simp add: DuplicateKey_def)
  show ?thesis
    using createPerk_conflict [OF gym_body_valid refused code]
    by (simp add: gym_first_create reply_def)
qed

text \<open>
  C6. When the \<open>title\<close> query parameter is absent or the empty string, \<open>filterPerks\<close>
  answers 400 and makes no call on the store.
\<close>

theorem filterPerks_requires_title:
  "title_q = None \<or> title_q = Some [] \<Longrightarrow>
     filterPerks title_q s = reply (Respond 400 (Message ''Title query parameter is required'')) [] s"
  by (auto simp: filterPerks_def)

theorem filterPerks_requires_title_witness:
  "filterPerks None [gym] = reply (Respond 400 (Message ''Title query parameter is required'')) [] [gym]
   \<and> filterPerks (Some []) [gym]
     = reply (Respond 400 (Message ''Title query parameter is required'')) [] [gym]"
  using filterPerks_requires_title [of None "[gym]"] filterPerks_requires_title [of "Some []" "[gym]"]
  by simp

lemma Perk_find_mset:
  "mset (Perk_find (Some t) s) = filter_mset (\<lambda>q. title q = t) (mset s)"
  by (simp add: Perk_find_def)

lemma Perk_find_sorted:
  "sorted_wrt (\<lambda>a b. createdAt b \<le> createdAt a) (Perk_find flt s)"
proof -
  have "sorted (map createdAt (sort_key createdAt xs))" for xs :: "perk list"
    by (rule sorted_sort_key)
  then have "sorted_wrt (\<lambda>a b. createdAt a \<le> createdAt b) (sort_key createdAt xs)" for xs :: "perk list"
    by (simp add: sorted_map)
  then show ?thesis
    by (simp add: Perk_find_def sorted_wrt_rev)
qed

text \<open>
  C7. For a non-empty title, \<open>filterPerks\<close> answers 200 with exactly the perks of the
  collection whose title is equal to it, each as often as the collection holds it, and
  ordered by creation time, newest first. The list is empty when no title matches.
\<close>

theorem filterPerks_exact_title:
  assumes "t \<noteq> []"
  shows "filterPerks (Some t) s
           = reply (Respond 200 (PerkDocs (Perk_find (Some t) s))) [Find (Some t)] s \<and>
         mset (Perk_find (Some t) s) = filter_mset (\<lambda>q. title q = t) (mset s) \<and>
         sorted_wrt (\<lambda>a b. createdAt b \<le> createdAt a) (Perk_find (Some t) s)"
  using assms by (simp add: filterPerks_def Perk_find_mset Perk_find_sorted)

theorem filterPerks_exact_title_witness:
  "outcome (filterPerks (Some ''Gym pass'') [gym, gym_plus, gym_later])
       = Respond 200 (PerkDocs [gym_later, gym]) \<and>
   outcome (filterPerks (Some ''Gym'') [gym, gym_plus, gym_later]) = Respond 200 (PerkDocs []) \<and>
   mset (Perk_find (Some ''Gym pass'') [gym, gym_plus, gym_later])
       = filter_mset (\<lambda>q. title q = ''Gym pass'') (mset [gym, gym_plus, gym_later])"
proof -
  have ne: "''Gym pass'' \<noteq> []" by simp
  have found: "Perk_find (Some ''Gym pass'') [gym, gym_plus, gym_later] = [gym_later, gym]"
    by (simp add: Perk_find_def gym_def gym_plus_def gym_later_def)
  have none: "Perk_find (Some ''Gym'') [gym, gym_plus, gym_later] = []"
    by (simp add: Perk_find_def gym_def gym_plus_def gym_later_def)
  have ne': "''Gym'' \<noteq> []" by simp
  show ?thesis
    using filterPerks_exact_title [OF ne, of "[gym, gym_plus, gym_later]"]
      filterPerks_exact_title [OF ne', of "[gym, gym_plus, gym_later]"]
    by (simp add: found none reply_def)
qed

text \<open>
  C8. When \<open>title\<close> is absent from the body, or is a string of fewer than two
  characters, \<open>createPerk\<close> answers 400 with the message of the title's error; it makes
  no call on the store, and the collection is unchanged.
\<close>

theorem createPerk_title_missing_or_short:
  assumes "map_of body ''title'' = None \<or>
     (\<exists>t. map_of body ''title'' = Some (JStr t) \<and> length t < 2)"
  shows "createPerk rd now oid body s
     = reply (Respond 400 (Message (message
         (if map_of body ''title'' = None then AnyRequired ''title''
          else if map_of body ''title'' = Some (JStr []) then StringEmpty ''title''
          else StringMinE ''title'' 2)))) [] s"
proof -
  define e where "e = (if map_of body ''title'' = None then AnyRequired ''title''
    else if map_of body ''title'' = Some (JStr []) then StringEmpty ''title''
    else StringMinE ''title'' 2)"
  from assms
  have "field_errors rd update_prefs body (''title'', joi_required (joi_min 2 Joi_string)) = [e]"
    by (auto simp: e_def title_errors split: if_splits)
  then have "concat (map (field_errors rd update_prefs body) perkSchema)
      = e # concat (map (field_errors rd update_prefs body) (tl perkSchema))"
    by (simp add: perkSchema_def)
  then have "all_errors rd create_prefs perkSchema body
      = e # (concat (map (field_errors rd update_prefs body) (tl perkSchema))
          @ map ObjectUnknown (unknown_keys perkSchema body))"
    unfolding all_errors_create by simp
  then have ne: "all_errors rd create_prefs perkSchema body \<noteq> []"
    and hd: "hd (all_errors rd create_prefs perkSchema body) = e"
    by simp_all
  from createPerk_rejects [OF ne, of now oid s] show ?thesis
    by (simp add: hd e_def)
qed

theorem createPerk_title_missing_or_short_witness:
  "createPerk no_reader 5 7 [(''merchant'', JStr ''FitCo'')] [gym]
     = reply (Respond 400 (Message (label ''title'' @ '' is required''))) [] [gym] \<and>
   createPerk no_reader 5 7 [(''title'', JStr ''G'')] [gym]
     = reply (Respond 400
         (Message (label ''title'' @ '' length must be at least 2 characters long''))) [] [gym]"
proof -
  have absent: "map_of [(''merchant'', JStr ''FitCo'')] ''title'' = None \<or>
      (\<exists>t. map_of [(''merchant'', JStr ''FitCo'')] ''title'' = Some (JStr t) \<and> length t < 2)"
    by simp
  have short: "map_of [(''title'', JStr ''G'')] ''title'' = None \<or>
      (\<exists>t. map_of [(''title'', JStr ''G'')] ''title'' = Some (JStr t) \<and> length t < 2)"
    by simp
  have two: "show_nat 2 = ''2''" by code_simp
  show ?thesis
    using createPerk_title_missing_or_short [OF absent, of no_reader 5 7 "[gym]"]
      createPerk_title_missing_or_short [OF short, of no_reader 5 7 "[gym]"]
    by (simp add: two)
qed

text \<open>
  C9. \<open>updatePerk\<close> without an identifier answers 400 "Missing id parameter"; with an
  identifier and without a body, or with an empty one, it answers 400
  "No update fields provided". In both cases it makes no call on the store and the
  collection is unchanged. (The spec quotes both messages without the capital.)
\<close>

theorem updatePerk_guards:
  "(id_p = None \<or> id_p = Some [] \<longrightarrow>
      updatePerk rd id_p body_p s = reply (Respond 400 (Message ''Missing id parameter'')) [] s) \<and>
   (id_p = Some ident \<and> ident \<noteq> [] \<and> (body_p = None \<or> body_p = Some []) \<longrightarrow>
      updatePerk rd id_p body_p s
        = reply (Respond 400 (Message ''No update fields provided'')) [] s)"
  by (auto simp: updatePerk_def)

theorem updatePerk_guards_witness:
  "updatePerk no_reader None (Some [(''description'', JStr ''new'')]) [gym]
     = reply (Respond 400 (Message ''Missing id parameter'')) [] [gym] \<and>
   updatePerk no_reader (Some []) (Some []) [gym]
     = reply (Respond 400 (Message ''Missing id parameter'')) [] [gym] \<and>
   updatePerk no_reader (Some gym_id) (Some []) [gym]
     = reply (Respond 400 (Message ''No update fields provided'')) [] [gym] \<and>
   updatePerk no_reader (Some gym_id) None [gym]
     = reply (Respond 400 (Message ''No update fields provided'')) [] [gym]"
proof -
  have ne: "gym_id \<noteq> []" by (simp add: gym_id_def)
  show ?thesis
    using updatePerk_guards [of None no_reader "Some [(''description'', JStr ''new'')]" "[gym]" gym_id]
      updatePerk_guards [of "Some []" no_reader "Some []" "[gym]" gym_id]
      updatePerk_guards [of "Some gym_id" no_reader "Some []" "[gym]" gym_id]
      updatePerk_guards [of "Some gym_id" no_reader None "[gym]" gym_id]
      ne
    by simp
qed

text \<open>
  C10. When a validation of the body that does not stop early finds the errors \<open>errs\<close>,
  \<open>createPerk\<close> answers 400 with the message of the first of them only. \<open>updatePerk\<close>
  on an existing record, for the same body, reports every one of them that is about a
  key of the schema (it strips unknown keys rather than reporting them).
\<close>

theorem createPerk_first_error_only:
  assumes "validate rd (create_prefs\<lparr>abortEarly := False\<rparr>) perkSchema body = Inl errs"
  shows "createPerk rd now oid body s = reply (Respond 400 (Message (message (hd errs)))) [] s \<and>
    (body \<noteq> [] \<and> Perk_findById ident s = Inr (Some d) \<and>
       (\<exists>e \<in> set errs. error_key e \<in> fst ` set perkSchema) \<longrightarrow>
     updatePerk rd (Some ident) (Some body) s
       = reply (Respond 400 (Failure ''Validation failed''
           (map message (filter (\<lambda>e. error_key e \<in> fst ` set perkSchema) errs))))
           [FindById ident] s)"
proof -
  let ?full = "create_prefs\<lparr>abortEarly := False\<rparr>"
  have all: "all_errors rd ?full perkSchema body = all_errors rd create_prefs perkSchema body"
    by (simp add: all_errors_def)
  from validate_full [OF distinct_perkSchema, of ?full rd body] assms
  have errs: "errs = all_errors rd create_prefs perkSchema body" and ne: "errs \<noteq> []"
    by (auto simp: all)
  have create: "createPerk rd now oid body s
      = reply (Respond 400 (Message (message (hd errs)))) [] s"
    using createPerk_rejects [of rd body now oid s] ne by (simp add: errs)
  have schema_errs: "filter (\<lambda>e. error_key e \<in> fst ` set perkSchema) errs
      = all_errors rd update_prefs perkSchema body"
    by (simp add: errs filter_schema_errors all_errors_update field_errors_create_full)
  have update: "updatePerk rd (Some ident) (Some body) s
      = reply (Respond 400 (Failure ''Validation failed''
          (map message (filter (\<lambda>e. error_key e \<in> fst ` set perkSchema) errs))))
          [FindById ident] s"
    if "body \<noteq> []" and "Perk_findById ident s = Inr (Some d)"
      and "\<exists>e \<in> set errs. error_key e \<in> fst ` set perkSchema"
  proof -
    from that(3) have "filter (\<lambda>e. error_key e \<in> fst ` set perkSchema) errs \<noteq> []"
      by (auto simp: filter_empty_conv)
    then have "all_errors rd update_prefs perkSchema body \<noteq> []"
      by (simp add: schema_errs)
    from updatePerk_rejects [OF that(1,2) this] show ?thesis
      by (simp add: schema_errs)
  qed
  from create update show ?thesis by blast
qed

theorem createPerk_first_error_only_witness:
  "createPerk no_reader 5 7 bad_body [gym]
     = reply (Respond 400
         (Message (label ''title'' @ '' length must be at least 2 characters long''))) [] [gym] \<and>
   updatePerk no_reader (Some gym_id) (Some bad_body) [gym]
     = reply (Respond 400 (Failure ''Validation failed''
         [label ''title'' @ '' length must be at least 2 characters long'',
          label ''discountPercent'' @ '' must be less than or equal to 100'']))
         [FindById gym_id] [gym]"
proof -
  have full: "validate no_reader (create_prefs\<lparr>abortEarly := False\<rparr>) perkSchema bad_body
      = Inl [StringMinE ''title'' 2, NumberMaxE ''discountPercent'' 100, ObjectUnknown ''colour'']"
    by code_simp
  have ne: "bad_body \<noteq> []" by (simp add: bad_body_def)
  have two: "show_nat 2 = ''2''" and hundred: "show_nat 100 = ''100''" by code_simp+
  show ?thesis
    using createPerk_first_error_only [OF full, of 5 7 "[gym]" gym_id gym] ne gym_found
    by (simp add: two hundred perkSchema_def)
qed

end
